theory Spec2Isabelle
  imports Complex_Main
begin

section \<open>Data model of the extraction server\<close>

text \<open>
  The server keeps one module-level map
  \<^verbatim>\<open>const jobs = new Map<string, { status: string; result?: unknown; error?: string }>()\<close>.
  The only status strings the server ever writes are \<^verbatim>\<open>"processing"\<close>,
  \<^verbatim>\<open>"completed"\<close> and \<^verbatim>\<open>"failed"\<close> (the union the client's \<^verbatim>\<open>Job\<close> interface
  declares). The payload of a finished extraction is \<^verbatim>\<open>unknown\<close> to the server: it is
  the type parameter \<open>'r\<close>. An optional property is an \<open>option\<close>.
\<close>

datatype status = Processing | Completed | Failed

record 'r job =
  status :: status
  result :: "'r option"
  error :: "string option"

type_synonym 'r jobs = "string \<rightharpoonup> 'r job"

text \<open>
  A value a JavaScript \<^verbatim>\<open>catch\<close> receives: an instance of \<^verbatim>\<open>Error\<close> with its
  \<^verbatim>\<open>message\<close>; any other value that \<^verbatim>\<open>String\<close> converts, given by the string it
  makes of it; or a value on which \<^verbatim>\<open>String\<close> itself throws (an object without a
  usable \<^verbatim>\<open>toString\<close>, such as \<^verbatim>\<open>Object.create(null)\<close>). A promise can be rejected
  with any of them.
\<close>

datatype thrown = Error_instance string | Non_error string | Unconvertible

text \<open>How an awaited promise settles.\<close>

datatype 'a settled = Resolved 'a | Rejected thrown

text \<open>
  The value \<^verbatim>\<open>ctx.request.body.json()\<close> resolves to. An object is the list of its own
  properties (each key once, as \<^verbatim>\<open>JSON.parse\<close> leaves it). A number is the number
  parsed; the handler only tests it against zero.
\<close>

datatype json =
    JNull
  | JBool bool
  | JNum real
  | JStr string
  | JArr "json list"
  | JObj "(string \<times> json) list"

text \<open>
  Reading property \<open>k\<close> of a parsed body that is not \<^verbatim>\<open>null\<close>: an own property of an
  object, \<^verbatim>\<open>undefined\<close> (here \<open>None\<close>) otherwise. Neither \<^verbatim>\<open>docsUrl\<close> nor
  \<^verbatim>\<open>extractionType\<close> is a property of a boolean, a number, a string or an array.
\<close>

fun property :: "json \<Rightarrow> string \<Rightarrow> json option" where
  "property (JObj props) k = map_of props k"
| "property _ k = None"

text \<open>
  \<^verbatim>\<open>const { docsUrl, extractionType } = body\<close>: destructuring \<^verbatim>\<open>null\<close> throws a
  \<^verbatim>\<open>TypeError\<close> (the text is the engine's); any other JSON value yields the two
  properties.
\<close>

definition destructure :: "json \<Rightarrow> thrown + (json option \<times> json option)" where
  "destructure body =
     (case body of
        JNull \<Rightarrow> Inl (Error_instance
          ''Cannot destructure property 'docsUrl' of 'body' as it is null.'')
      | _ \<Rightarrow> Inr (property body ''docsUrl'', property body ''extractionType''))"

text \<open>
  JavaScript truthiness of a property read: \<^verbatim>\<open>undefined\<close>, \<^verbatim>\<open>null\<close>, \<^verbatim>\<open>false\<close>,
  \<^verbatim>\<open>0\<close> and \<^verbatim>\<open>""\<close> are falsy, every other JSON value (arrays and objects
  included, also empty ones) is truthy.
\<close>

fun truthy :: "json option \<Rightarrow> bool" where
  "truthy None = False"
| "truthy (Some JNull) = False"
| "truthy (Some (JBool b)) = b"
| "truthy (Some (JNum x)) = (x \<noteq> 0)"
| "truthy (Some (JStr s)) = (s \<noteq> [])"
| "truthy (Some (JArr xs)) = True"
| "truthy (Some (JObj props)) = True"

subsection \<open>The background task\<close>

text \<open>
  The \<^verbatim>\<open>async\<close> arrow function launched by the POST handler suspends at three
  \<^verbatim>\<open>await\<close>s: \<^verbatim>\<open>DocsExtractorAgent.create()\<close>, \<^verbatim>\<open>agent.extract(...)\<close> and
  \<^verbatim>\<open>agent.cleanup()\<close>. A task is where it is suspended, together with the variables
  it has captured. A task that has run to its end is \<open>Finished\<close>. A task whose
  \<^verbatim>\<open>catch\<close> block has thrown is \<open>Crashed\<close>: the promise of the arrow function is
  rejected, and nothing handles it.
\<close>

datatype stage = Await_create | Await_extract | Await_cleanup | Finished | Crashed

record task =
  task_jobId :: string
  task_docsUrl :: "json option"
  task_extractionType :: "json option"
  task_stage :: stage

record 'r server =
  jobs :: "'r jobs"
  tasks :: "task list"

definition init :: "'r server" where
  "init = \<lparr>jobs = Map.empty, tasks = []\<rparr>"

subsection \<open>Responses\<close>

text \<open>An element of the list \<^verbatim>\<open>GET /api/docs\<close> answers with.\<close>

record doc =
  name :: string
  path :: string

datatype 'r body =
    Error_body string
  | Extract_body string status
  | Job_body "'r job"
  | Docs_body "doc list"

record 'r response =
  http_status :: nat
  body :: "'r body"

section \<open>Writes to the job map\<close>

text \<open>
  The three writes of the server, each a plain \<^verbatim>\<open>jobs.set\<close>:
  \<^verbatim>\<open>jobs.set(jobId, { status: "processing" })\<close> in the POST handler,
  \<^verbatim>\<open>jobs.set(jobId, { status: "completed", result })\<close> after the extraction and
  \<^verbatim>\<open>jobs.set(jobId, { status: "failed", error: ... })\<close> in the task's \<^verbatim>\<open>catch\<close>.
  They are named after the store operations they stand for.
\<close>

definition create_job :: "string \<Rightarrow> 'r jobs \<Rightarrow> 'r jobs" where
  "create_job jobId js = js(jobId \<mapsto> \<lparr>status = Processing, result = None, error = None\<rparr>)"

definition markCompleted :: "string \<Rightarrow> 'r \<Rightarrow> 'r jobs \<Rightarrow> 'r jobs" where
  "markCompleted jobId r js = js(jobId \<mapsto> \<lparr>status = Completed, result = Some r, error = None\<rparr>)"

definition markFailed :: "string \<Rightarrow> string \<Rightarrow> 'r jobs \<Rightarrow> 'r jobs" where
  "markFailed jobId msg js = js(jobId \<mapsto> \<lparr>status = Failed, result = None, error = Some msg\<rparr>)"

text \<open>
  \<^verbatim>\<open>error instanceof Error ? error.message : String(error)\<close>. \<open>None\<close>: the
  conversion throws.
\<close>

fun error_message :: "thrown \<Rightarrow> string option" where
  "error_message (Error_instance m) = Some m"
| "error_message (Non_error s) = Some s"
| "error_message Unconvertible = None"

text \<open>
  The \<^verbatim>\<open>catch\<close> block of the background task. The record passed to \<^verbatim>\<open>jobs.set\<close>
  is built first; if building it throws, nothing is written and the block is left by
  that exception (\<open>None\<close>).
\<close>

definition task_catch :: "string \<Rightarrow> thrown \<Rightarrow> 'r jobs \<Rightarrow> 'r jobs option" where
  "task_catch jobId e js =
     (case error_message e of
        None \<Rightarrow> None
      | Some msg \<Rightarrow> Some (markFailed jobId msg js))"

section \<open>Request handlers\<close>

text \<open>\<^verbatim>\<open>error instanceof Error ? error.message : "Internal server error"\<close>\<close>

fun api_error_message :: "thrown \<Rightarrow> string" where
  "api_error_message (Error_instance m) = m"
| "api_error_message (Non_error s) = ''Internal server error''"
| "api_error_message Unconvertible = ''Internal server error''"

definition internal_error :: "thrown \<Rightarrow> 'r response" where
  "internal_error e = \<lparr>http_status = 500, body = Error_body (api_error_message e)\<rparr>"

definition bad_request :: "'r response" where
  "bad_request =
     \<lparr>http_status = 400,
      body = Error_body ''Missing required fields: docsUrl, extractionType''\<rparr>"

text \<open>
  \<^verbatim>\<open>POST /api/extract\<close>. The first argument is how \<^verbatim>\<open>ctx.request.body.json()\<close>
  settles, the second what \<^verbatim>\<open>crypto.randomUUID()\<close> returns when it is called (a
  request that is turned down before does not use it). The launched task runs
  \<^verbatim>\<open>DocsExtractorAgent.create()\<close>, an \<^verbatim>\<open>async\<close> function, up to its first
  \<^verbatim>\<open>await\<close> and is then suspended: the handler gets control back with the task at
  \<open>Await_create\<close>, whatever the outcome of the extraction will be.
\<close>

definition handle_extract ::
  "json settled \<Rightarrow> string \<Rightarrow> 'r server \<Rightarrow> 'r response \<times> 'r server" where
  "handle_extract parsed uuid s =
     (case parsed of
        Rejected e \<Rightarrow> (internal_error e, s)
      | Resolved request_body \<Rightarrow>
          (case destructure request_body of
             Inl e \<Rightarrow> (internal_error e, s)
           | Inr (docsUrl, extractionType) \<Rightarrow>
               if \<not> truthy docsUrl \<or> \<not> truthy extractionType then (bad_request, s)
               else
                 let jobId = uuid;
                     t = \<lparr>task_jobId = jobId, task_docsUrl = docsUrl,
                          task_extractionType = extractionType,
                          task_stage = Await_create\<rparr>
                 in (\<lparr>http_status = 200, body = Extract_body jobId Processing\<rparr>,
                     s\<lparr>jobs := create_job jobId (jobs s), tasks := tasks s @ [t]\<rparr>)))"

text \<open>\<^verbatim>\<open>GET /api/job/:jobId\<close>. A stored job is an object, hence truthy.\<close>

definition handle_job :: "string \<Rightarrow> 'r server \<Rightarrow> 'r response" where
  "handle_job jobId s =
     (case jobs s jobId of
        None \<Rightarrow> \<lparr>http_status = 404, body = Error_body ''Job not found''\<rparr>
      | Some j \<Rightarrow> \<lparr>http_status = 200, body = Job_body j\<rparr>)"

section \<open>Continuations of the background task\<close>

text \<open>
  \<^verbatim>\<open>async cleanup() { }\<close> of \<^verbatim>\<open>DocsExtractorAgent\<close>: an empty body, so the promise
  it returns is always fulfilled.
\<close>

definition cleanup :: "unit settled" where
  "cleanup = Resolved ()"

text \<open>
  What the task does when the promise it awaits settles, up to its next \<^verbatim>\<open>await\<close>
  or its end. All three \<^verbatim>\<open>await\<close>s are inside the one \<^verbatim>\<open>try\<close>, so each rejection
  goes to \<open>task_catch\<close>. The \<^verbatim>\<open>catch\<close> block is the last statement of the function:
  when it completes the task is finished, when it throws the task has crashed.
\<close>

definition caught :: "thrown \<Rightarrow> task \<Rightarrow> 'r jobs \<Rightarrow> task \<times> 'r jobs" where
  "caught e t js =
     (case task_catch (task_jobId t) e js of
        Some js' \<Rightarrow> (t\<lparr>task_stage := Finished\<rparr>, js')
      | None \<Rightarrow> (t\<lparr>task_stage := Crashed\<rparr>, js))"

definition after_create :: "unit settled \<Rightarrow> task \<Rightarrow> 'r jobs \<Rightarrow> task \<times> 'r jobs" where
  "after_create outcome t js =
     (case outcome of
        Resolved agent \<Rightarrow> (t\<lparr>task_stage := Await_extract\<rparr>, js)
      | Rejected e \<Rightarrow> caught e t js)"

definition after_extract :: "'r settled \<Rightarrow> task \<Rightarrow> 'r jobs \<Rightarrow> task \<times> 'r jobs" where
  "after_extract outcome t js =
     (case outcome of
        Resolved r \<Rightarrow> (t\<lparr>task_stage := Await_cleanup\<rparr>, markCompleted (task_jobId t) r js)
      | Rejected e \<Rightarrow> caught e t js)"

definition after_cleanup :: "unit settled \<Rightarrow> task \<Rightarrow> 'r jobs \<Rightarrow> task \<times> 'r jobs" where
  "after_cleanup outcome t js =
     (case outcome of
        Resolved u \<Rightarrow> (t\<lparr>task_stage := Finished\<rparr>, js)
      | Rejected e \<Rightarrow> caught e t js)"

section \<open>The event loop\<close>

text \<open>
  One turn of the event loop: a request is handled, or the promise the \<open>i\<close>-th launched
  task awaits settles. The outcomes of \<^verbatim>\<open>create\<close> and \<^verbatim>\<open>extract\<close> come from outside;
  that of \<^verbatim>\<open>cleanup\<close> is the one its code has. \<^verbatim>\<open>GET /api/docs\<close> and
  \<^verbatim>\<open>GET /api/docs/:filename\<close> do not touch \<^verbatim>\<open>jobs\<close> and are left out.
\<close>

datatype 'r event =
    Post "json settled" string
  | Get_job string
  | Create_settled nat "unit settled"
  | Extract_settled nat "'r settled"
  | Cleanup_settled nat

text \<open>Task \<open>i\<close> goes on if it is suspended at stage \<open>st\<close>; otherwise nothing happens.\<close>

definition resume ::
  "nat \<Rightarrow> stage \<Rightarrow> (task \<Rightarrow> 'r jobs \<Rightarrow> task \<times> 'r jobs) \<Rightarrow> 'r server \<Rightarrow> 'r server" where
  "resume i st k s =
     (if i < length (tasks s) \<and> task_stage (tasks s ! i) = st
      then (case k (tasks s ! i) (jobs s) of
              (t', js') \<Rightarrow> s\<lparr>jobs := js', tasks := (tasks s)[i := t']\<rparr>)
      else s)"

fun fire :: "'r event \<Rightarrow> 'r server \<Rightarrow> 'r server" where
  "fire (Post parsed uuid) s = snd (handle_extract parsed uuid s)"
| "fire (Get_job jobId) s = s"
| "fire (Create_settled i outcome) s = resume i Await_create (after_create outcome) s"
| "fire (Extract_settled i outcome) s = resume i Await_extract (after_extract outcome) s"
| "fire (Cleanup_settled i) s = resume i Await_cleanup (after_cleanup cleanup) s"

fun run :: "'r event list \<Rightarrow> 'r server \<Rightarrow> 'r server" where
  "run [] s = s"
| "run (e # es) s = run es (fire e s)"

text \<open>
  \<^verbatim>\<open>crypto.randomUUID()\<close> is taken to return an identifier that is not in use: since
  the server never deletes from \<^verbatim>\<open>jobs\<close>, that is one that is not a key of the map.
\<close>

fun fresh_uuid :: "'r event \<Rightarrow> 'r server \<Rightarrow> bool" where
  "fresh_uuid (Post parsed uuid) s = (case jobs s uuid of None \<Rightarrow> True | Some j \<Rightarrow> False)"
| "fresh_uuid e s = True"

fun fresh_uuids :: "'r event list \<Rightarrow> 'r server \<Rightarrow> bool" where
  "fresh_uuids [] s = True"
| "fresh_uuids (e # es) s = (fresh_uuid e s \<and> fresh_uuids es (fire e s))"

text \<open>The identifiers \<^verbatim>\<open>crypto.randomUUID()\<close> has handed to POST requests.\<close>

fun posted :: "'r event list \<Rightarrow> string list" where
  "posted [] = []"
| "posted (Post parsed uuid # es) = uuid # posted es"
| "posted (e # es) = posted es"

section \<open>Listing the generated documents\<close>

text \<open>
  A \<^verbatim>\<open>Deno.DirEntry\<close>, and what iterating \<^verbatim>\<open>Deno.readDir("./generated-docs")\<close>
  does: it yields all entries, or it yields some and then throws.
\<close>

record dir_entry =
  entry_name :: string
  isFile :: bool
  isDirectory :: bool
  isSymlink :: bool

datatype read_dir = Entries "dir_entry list" | Entries_then_throw "dir_entry list" thrown

text \<open>\<^verbatim>\<open>String.prototype.endsWith\<close>\<close>

definition endsWith :: "string \<Rightarrow> string \<Rightarrow> bool" where
  "endsWith s searchString =
     (length searchString \<le> length s \<and>
      drop (length s - length searchString) s = searchString)"

text \<open>The body of the \<^verbatim>\<open>for await\<close> loop, with \<^verbatim>\<open>docs\<close> as accumulator.\<close>

fun push_docs :: "dir_entry list \<Rightarrow> doc list \<Rightarrow> doc list" where
  "push_docs [] docs = docs"
| "push_docs (entry # entries) docs =
     push_docs entries
       (if isFile entry \<and> endsWith (entry_name entry) ''.md''
        then docs @ [\<lparr>name = entry_name entry,
                      path = ''./generated-docs/'' @ entry_name entry\<rparr>]
        else docs)"

text \<open>
  \<^verbatim>\<open>GET /api/docs\<close>. Neither branch sets \<^verbatim>\<open>ctx.response.status\<close>; with a body
  set the answer is 200.
\<close>

definition handle_docs :: "read_dir \<Rightarrow> 'r response" where
  "handle_docs rd =
     (case rd of
        Entries entries \<Rightarrow> \<lparr>http_status = 200, body = Docs_body (push_docs entries [])\<rparr>
      | Entries_then_throw entries e \<Rightarrow> \<lparr>http_status = 200, body = Docs_body []\<rparr>)"

section \<open>The job store as the specification describes it\<close>

text \<open>
  For comparison with the writes above: the store operations in the specification's
  words, with their guards. \<open>spec_create\<close> fails with \<open>DuplicateIdError\<close> when the
  identifier exists; \<open>spec_markCompleted\<close> and \<open>spec_markFailed\<close> fail with
  \<open>InvalidTransitionError\<close> when the job is not currently processing.
\<close>

datatype store_error = DuplicateIdError | InvalidTransitionError

definition is_processing :: "'r jobs \<Rightarrow> string \<Rightarrow> bool" where
  "is_processing js jobId =
     (case js jobId of None \<Rightarrow> False | Some j \<Rightarrow> status j = Processing)"

definition spec_create :: "string \<Rightarrow> 'r jobs \<Rightarrow> store_error + 'r jobs" where
  "spec_create jobId js =
     (case js jobId of
        Some j \<Rightarrow> Inl DuplicateIdError
      | None \<Rightarrow> Inr (js(jobId \<mapsto> \<lparr>status = Processing, result = None, error = None\<rparr>)))"

definition spec_markCompleted :: "string \<Rightarrow> 'r \<Rightarrow> 'r jobs \<Rightarrow> store_error + 'r jobs" where
  "spec_markCompleted jobId r js =
     (if is_processing js jobId
      then Inr (js(jobId \<mapsto> \<lparr>status = Completed, result = Some r, error = None\<rparr>))
      else Inl InvalidTransitionError)"

definition spec_markFailed :: "string \<Rightarrow> string \<Rightarrow> 'r jobs \<Rightarrow> store_error + 'r jobs" where
  "spec_markFailed jobId msg js =
     (if is_processing js jobId
      then Inr (js(jobId \<mapsto> \<lparr>status = Failed, result = None, error = Some msg\<rparr>))
      else Inl InvalidTransitionError)"

section \<open>Invariants\<close>

text \<open>
  The shape of a job record: nothing attached while processing, a result and no error
  when completed, an error and no result when failed.
\<close>

definition job_wf :: "'r job \<Rightarrow> bool" where
  "job_wf j =
     (case status j of
        Processing \<Rightarrow> result j = None \<and> error j = None
      | Completed \<Rightarrow> result j \<noteq> None \<and> error j = None
      | Failed \<Rightarrow> result j = None \<and> error j \<noteq> None)"

definition terminal :: "status \<Rightarrow> bool" where
  "terminal st = (st = Completed \<or> st = Failed)"

text \<open>A task that can still write to \<^verbatim>\<open>jobs\<close>: one that awaits the agent or the extraction.\<close>

definition writing :: "task \<Rightarrow> bool" where
  "writing t = (task_stage t = Await_create \<or> task_stage t = Await_extract)"

text \<open>
  Each task has its own job identifier, and the job of a task that can still write is
  processing.
\<close>

definition owner_inv :: "'r server \<Rightarrow> bool" where
  "owner_inv s =
     (distinct (map task_jobId (tasks s)) \<and>
      (\<forall>t \<in> set (tasks s). jobs s (task_jobId t) \<noteq> None) \<and>
      (\<forall>t \<in> set (tasks s). writing t \<longrightarrow> is_processing (jobs s) (task_jobId t)))"

text \<open>
  What resuming a task may do: the task keeps its job identifier; \<^verbatim>\<open>jobs\<close> is left
  alone or the task's own job is overwritten with a well-shaped terminal record; and a
  task that can still write afterwards has not written.
\<close>

definition continuation :: "(task \<Rightarrow> 'r jobs \<Rightarrow> task \<times> 'r jobs) \<Rightarrow> bool" where
  "continuation k =
     (\<forall>t js. task_jobId (fst (k t js)) = task_jobId t \<and>
             (snd (k t js) = js \<or> (\<exists>j. job_wf j \<and> terminal (status j) \<and> snd (k t js) = js(task_jobId t \<mapsto> j))) \<and>
             (writing (fst (k t js)) \<longrightarrow> snd (k t js) = js))"

section \<open>Proofs\<close>

subsection \<open>Evaluating the handlers\<close>

text \<open>The definitions a concrete run of the server unfolds to.\<close>

lemmas server_eval =
  init_def handle_extract_def destructure_def Let_def create_job_def markCompleted_def
  markFailed_def task_catch_def caught_def resume_def after_create_def after_extract_def
  after_cleanup_def cleanup_def handle_job_def

lemma handle_extract_cases:
  "snd (handle_extract parsed uuid s) = s \<or>
   (\<exists>t. snd (handle_extract parsed uuid s) =
           s\<lparr>jobs := create_job uuid (jobs s), tasks := tasks s @ [t]\<rparr> \<and>
        task_jobId t = uuid \<and> task_stage t = Await_create)"
  by (auto simp add: handle_extract_def Let_def split: settled.splits sum.splits)

lemma handle_extract_accept:
  assumes "truthy (property b ''docsUrl'')" and "truthy (property b ''extractionType'')"
  shows "handle_extract (Resolved b) uuid s =
           (\<lparr>http_status = 200, body = Extract_body uuid Processing\<rparr>,
            s\<lparr>jobs := create_job uuid (jobs s),
              tasks := tasks s @ [\<lparr>task_jobId = uuid, task_docsUrl = property b ''docsUrl'',
                                  task_extractionType = property b ''extractionType'',
                                  task_stage = Await_create\<rparr>]\<rparr>)"
proof -
  from assms(1) have "b \<noteq> JNull" by (cases b) auto
  then have "destructure b = Inr (property b ''docsUrl'', property b ''extractionType'')"
    by (cases b) (simp_all add: destructure_def)
  with assms show ?thesis
    by (simp add: handle_extract_def Let_def)
qed

lemma handle_extract_reject:
  assumes "b \<noteq> JNull"
    and "\<not> truthy (property b ''docsUrl'') \<or> \<not> truthy (property b ''extractionType'')"
  shows "handle_extract (Resolved b) uuid s = (bad_request, s)"
proof -
  from assms(1) have "destructure b = Inr (property b ''docsUrl'', property b ''extractionType'')"
    by (cases b) (simp_all add: destructure_def)
  with assms(2) show ?thesis
    by (auto simp add: handle_extract_def)
qed

text \<open>
  A body that parses to \<^verbatim>\<open>null\<close> does not reach the required-fields check: the
  destructuring throws and the outer \<^verbatim>\<open>catch\<close> answers 500. No job is created.
\<close>

lemma handle_extract_null:
  "handle_extract (Resolved JNull) uuid s =
     (\<lparr>http_status = 500,
       body = Error_body ''Cannot destructure property 'docsUrl' of 'body' as it is null.''\<rparr>, s)"
  by (simp add: handle_extract_def destructure_def internal_error_def)

lemma handle_job_missing:
  "jobs s k = None \<Longrightarrow>
   handle_job k s = \<lparr>http_status = 404, body = Error_body ''Job not found''\<rparr>"
  by (simp add: handle_job_def)

lemma handle_job_found:
  "handle_job k s = \<lparr>http_status = 200, body = Job_body j\<rparr> \<longleftrightarrow> jobs s k = Some j"
  by (simp add: handle_job_def split: option.splits)

subsection \<open>Resuming a task\<close>

lemma failed_record:
  "job_wf \<lparr>status = Failed, result = None, error = Some m\<rparr> \<and>
   terminal (status \<lparr>status = Failed, result = None, error = Some m\<rparr>)"
  by (simp add: job_wf_def terminal_def)

lemma completed_record:
  "job_wf \<lparr>status = Completed, result = Some r, error = None\<rparr> \<and>
   terminal (status \<lparr>status = Completed, result = Some r, error = None\<rparr>)"
  by (simp add: job_wf_def terminal_def)

lemma caught_cases:
  "caught e t js = (t\<lparr>task_stage := Crashed\<rparr>, js) \<or>
   (\<exists>m. caught e t js = (t\<lparr>task_stage := Finished\<rparr>, markFailed (task_jobId t) m js))"
  by (auto simp add: caught_def task_catch_def split: option.splits)

lemma continuation_caught: "continuation (caught e)"
  unfolding continuation_def
proof (intro allI)
  fix t :: task and js :: "'a jobs"
  from caught_cases [of e t js]
  show "task_jobId (fst (caught e t js)) = task_jobId t \<and>
        (snd (caught e t js) = js \<or>
         (\<exists>j. job_wf j \<and> terminal (status j) \<and> snd (caught e t js) = js(task_jobId t \<mapsto> j))) \<and>
        (writing (fst (caught e t js)) \<longrightarrow> snd (caught e t js) = js)"
  proof
    assume "caught e t js = (t\<lparr>task_stage := Crashed\<rparr>, js)"
    then show ?thesis by (simp add: writing_def)
  next
    assume "\<exists>m. caught e t js = (t\<lparr>task_stage := Finished\<rparr>, markFailed (task_jobId t) m js)"
    then obtain m where
      "caught e t js = (t\<lparr>task_stage := Finished\<rparr>, markFailed (task_jobId t) m js)" ..
    then show ?thesis
      using failed_record [of m] by (auto simp: markFailed_def writing_def)
  qed
qed

lemma continuation_after_create: "continuation (after_create outcome)"
proof (cases outcome)
  case (Resolved agent)
  then show ?thesis
    by (simp add: continuation_def after_create_def)
next
  case (Rejected e)
  then show ?thesis
    using continuation_caught [of e]
    by (simp add: continuation_def after_create_def)
qed

lemma continuation_after_extract: "continuation (after_extract outcome)"
proof (cases outcome)
  case (Resolved r)
  then show ?thesis
    using completed_record [of r]
    by (auto simp: continuation_def after_extract_def markCompleted_def writing_def)
next
  case (Rejected e)
  then show ?thesis
    using continuation_caught [of e]
    by (simp add: continuation_def after_extract_def)
qed

lemma after_cleanup_cleanup: "after_cleanup cleanup t js = (t\<lparr>task_stage := Finished\<rparr>, js)"
  by (simp add: after_cleanup_def cleanup_def)

lemma continuation_after_cleanup: "continuation (after_cleanup cleanup)"
  by (simp add: continuation_def after_cleanup_cleanup writing_def)

lemma resume_disabled:
  "\<not> (i < length (tasks s) \<and> task_stage (tasks s ! i) = st) \<Longrightarrow> resume i st k s = s"
  unfolding resume_def by (rule if_not_P)

lemma resume_enabled:
  "i < length (tasks s) \<and> task_stage (tasks s ! i) = st \<Longrightarrow>
   resume i st k s =
     s\<lparr>jobs := snd (k (tasks s ! i) (jobs s)),
       tasks := (tasks s)[i := fst (k (tasks s ! i) (jobs s))]\<rparr>"
  unfolding resume_def by (simp split: prod.splits)

subsection \<open>Runs\<close>

lemma run_append: "run (evs @ evs') s = run evs' (run evs s)"
  by (induction evs arbitrary: s) simp_all

lemma fresh_uuids_append:
  "fresh_uuids (evs @ evs') s \<longleftrightarrow> fresh_uuids evs s \<and> fresh_uuids evs' (run evs s)"
  by (induction evs arbitrary: s) simp_all

lemma posted_Cons: "set (posted (e # es)) = set (posted [e]) \<union> set (posted es)"
  by (cases e) simp_all

subsection \<open>The shape of job records\<close>

lemma job_wf_resume:
  assumes "continuation k" and "\<forall>x j. jobs s x = Some j \<longrightarrow> job_wf j"
  shows "\<forall>x j. jobs (resume i st k s) x = Some j \<longrightarrow> job_wf j"
proof (cases "i < length (tasks s) \<and> task_stage (tasks s ! i) = st")
  case False
  then have "resume i st k s = s" by (rule resume_disabled)
  with assms(2) show ?thesis by simp
next
  case True
  let ?t = "tasks s ! i"
  have js: "jobs (resume i st k s) = snd (k ?t (jobs s))"
    using True by (simp add: resume_enabled)
  from assms(1) have "snd (k ?t (jobs s)) = jobs s \<or>
      (\<exists>j. job_wf j \<and> terminal (status j) \<and> snd (k ?t (jobs s)) = (jobs s)(task_jobId ?t \<mapsto> j))"
    by (simp add: continuation_def)
  with assms(2) show ?thesis
    unfolding js by (auto split: if_splits)
qed

lemma job_wf_fire:
  assumes "\<forall>x j. jobs s x = Some j \<longrightarrow> job_wf j"
  shows "\<forall>x j. jobs (fire e s) x = Some j \<longrightarrow> job_wf j"
proof (cases e)
  case (Post parsed uuid)
  from handle_extract_cases [of parsed uuid s] assms show ?thesis
    unfolding Post by (auto simp: create_job_def job_wf_def split: if_splits)
next
  case (Get_job k)
  with assms show ?thesis by simp
next
  case (Create_settled i outcome)
  show ?thesis unfolding Create_settled fire.simps
    by (rule job_wf_resume [OF continuation_after_create assms])
next
  case (Extract_settled i outcome)
  show ?thesis unfolding Extract_settled fire.simps
    by (rule job_wf_resume [OF continuation_after_extract assms])
next
  case (Cleanup_settled i)
  show ?thesis unfolding Cleanup_settled fire.simps
    by (rule job_wf_resume [OF continuation_after_cleanup assms])
qed

lemma job_wf_run:
  "\<forall>x j. jobs s x = Some j \<longrightarrow> job_wf j \<Longrightarrow> \<forall>x j. jobs (run evs s) x = Some j \<longrightarrow> job_wf j"
proof (induction evs arbitrary: s)
  case Nil
  then show ?case by simp
next
  case (Cons e evs)
  from Cons.prems have "\<forall>x j. jobs (fire e s) x = Some j \<longrightarrow> job_wf j"
    by (rule job_wf_fire)
  then show ?case unfolding run.simps by (rule Cons.IH)
qed

subsection \<open>Every task owns its job\<close>

lemma owner_inv_init: "owner_inv init"
  by (simp add: owner_inv_def init_def)

lemma owner_inv_post:
  assumes inv: "owner_inv s" and fresh: "jobs s uuid = None"
  shows "owner_inv (snd (handle_extract parsed uuid s))"
proof -
  from handle_extract_cases [of parsed uuid s]
  consider "snd (handle_extract parsed uuid s) = s"
    | t where "snd (handle_extract parsed uuid s) =
                 s\<lparr>jobs := create_job uuid (jobs s), tasks := tasks s @ [t]\<rparr>"
        and "task_jobId t = uuid" and "task_stage t = Await_create"
    by blast
  then show ?thesis
  proof cases
    case 1
    with inv show ?thesis by simp
  next
    case 2
    from inv have d: "distinct (map task_jobId (tasks s))"
      and dom: "\<forall>u \<in> set (tasks s). jobs s (task_jobId u) \<noteq> None"
      and pr: "\<forall>u \<in> set (tasks s). writing u \<longrightarrow> is_processing (jobs s) (task_jobId u)"
      by (simp_all add: owner_inv_def)
    from dom fresh have new: "\<forall>u \<in> set (tasks s). task_jobId u \<noteq> uuid"
      by auto
    have "distinct (map task_jobId (tasks s @ [t]))"
      using d new 2(2) by auto
    moreover have "\<forall>u \<in> set (tasks s @ [t]). create_job uuid (jobs s) (task_jobId u) \<noteq> None"
      using dom 2(2) by (auto simp: create_job_def)
    moreover have "\<forall>u \<in> set (tasks s @ [t]).
        writing u \<longrightarrow> is_processing (create_job uuid (jobs s)) (task_jobId u)"
      using pr new 2(2) by (auto simp: create_job_def is_processing_def)
    ultimately show ?thesis
      unfolding 2(1) by (simp add: owner_inv_def)
  qed
qed

lemma owner_inv_resume:
  assumes k: "continuation k" and inv: "owner_inv s"
    and st: "st = Await_create \<or> st = Await_extract \<or> k = after_cleanup cleanup"
  shows "owner_inv (resume i st k s)"
proof (cases "i < length (tasks s) \<and> task_stage (tasks s ! i) = st")
  case False
  then have "resume i st k s = s" by (rule resume_disabled)
  with inv show ?thesis by simp
next
  case True
  let ?t = "tasks s ! i"
  let ?t' = "fst (k ?t (jobs s))"
  let ?js' = "snd (k ?t (jobs s))"
  from inv have d: "distinct (map task_jobId (tasks s))"
    and dom: "\<forall>u \<in> set (tasks s). jobs s (task_jobId u) \<noteq> None"
    and pr: "\<forall>u \<in> set (tasks s). writing u \<longrightarrow> is_processing (jobs s) (task_jobId u)"
    by (simp_all add: owner_inv_def)
  from True have i: "i < length (tasks s)" and ti: "?t \<in> set (tasks s)" by simp_all
  from k have id: "task_jobId ?t' = task_jobId ?t"
    and upd: "?js' = jobs s \<or> (\<exists>j. ?js' = (jobs s)(task_jobId ?t \<mapsto> j))"
    and wr: "writing ?t' \<longrightarrow> ?js' = jobs s"
    unfolding continuation_def by blast+
  have eq: "resume i st k s = s\<lparr>jobs := ?js', tasks := (tasks s)[i := ?t']\<rparr>"
    using True by (rule resume_enabled)
  have ids: "map task_jobId ((tasks s)[i := ?t']) = map task_jobId (tasks s)"
    using i id by (simp add: map_update list_update_same_conv)
  have keep: "\<And>x. jobs s x \<noteq> None \<Longrightarrow> ?js' x \<noteq> None"
    using upd by auto
  have other: "\<And>x. x \<noteq> task_jobId ?t \<Longrightarrow> ?js' x = jobs s x"
    using upd by auto
  have c2: "\<forall>u \<in> set ((tasks s)[i := ?t']). ?js' (task_jobId u) \<noteq> None"
  proof
    fix u assume "u \<in> set ((tasks s)[i := ?t'])"
    then have "u = ?t' \<or> u \<in> set (tasks s)"
      using set_update_subset_insert [of "tasks s" i ?t'] by auto
    then have "jobs s (task_jobId u) \<noteq> None"
      using dom ti id by auto
    then show "?js' (task_jobId u) \<noteq> None" by (rule keep)
  qed
  have c3: "\<forall>u \<in> set ((tasks s)[i := ?t']). writing u \<longrightarrow> is_processing ?js' (task_jobId u)"
  proof (intro ballI impI)
    fix u assume u: "u \<in> set ((tasks s)[i := ?t'])" and w: "writing u"
    from u obtain n where n: "n < length (tasks s)" "u = (tasks s)[i := ?t'] ! n"
      by (auto simp: in_set_conv_nth)
    show "is_processing ?js' (task_jobId u)"
    proof (cases "n = i")
      case True
      with n i have u': "u = ?t'" by simp
      with w wr have same: "?js' = jobs s" by simp
      have "writing ?t"
      proof -
        from st show ?thesis
        proof (elim disjE)
          assume "st = Await_create" with \<open>i < length (tasks s) \<and> task_stage ?t = st\<close>
          show ?thesis by (simp add: writing_def)
        next
          assume "st = Await_extract" with \<open>i < length (tasks s) \<and> task_stage ?t = st\<close>
          show ?thesis by (simp add: writing_def)
        next
          assume "k = after_cleanup cleanup"
          with w u' show ?thesis by (simp add: after_cleanup_cleanup writing_def)
        qed
      qed
      with pr ti have "is_processing (jobs s) (task_jobId ?t)" by blast
      with same u' id show ?thesis by simp
    next
      case False
      with n have un: "u = tasks s ! n" by simp
      from n(1) have "tasks s ! n \<in> set (tasks s)" by (rule nth_mem)
      with un have uin: "u \<in> set (tasks s)" by simp
      from d n i False have "map task_jobId (tasks s) ! n \<noteq> map task_jobId (tasks s) ! i"
        by (simp add: nth_eq_iff_index_eq del: nth_map)
      with n i un have "task_jobId u \<noteq> task_jobId ?t" by simp
      then have "?js' (task_jobId u) = jobs s (task_jobId u)" by (rule other)
      moreover from pr uin w have "is_processing (jobs s) (task_jobId u)" by blast
      ultimately show ?thesis by (simp add: is_processing_def)
    qed
  qed
  from d ids c2 c3 show ?thesis
    unfolding eq by (simp add: owner_inv_def)
qed

lemma owner_inv_fire:
  assumes "owner_inv s" and "fresh_uuid e s"
  shows "owner_inv (fire e s)"
proof (cases e)
  case (Post parsed uuid)
  with assms(2) have "jobs s uuid = None" by (simp split: option.splits)
  with assms(1) show ?thesis unfolding Post fire.simps by (rule owner_inv_post)
next
  case (Get_job k)
  with assms(1) show ?thesis by simp
next
  case (Create_settled i outcome)
  show ?thesis unfolding Create_settled fire.simps
    by (rule owner_inv_resume [OF continuation_after_create assms(1)]) simp
next
  case (Extract_settled i outcome)
  show ?thesis unfolding Extract_settled fire.simps
    by (rule owner_inv_resume [OF continuation_after_extract assms(1)]) simp
next
  case (Cleanup_settled i)
  show ?thesis unfolding Cleanup_settled fire.simps
    by (rule owner_inv_resume [OF continuation_after_cleanup assms(1)]) simp
qed

lemma owner_inv_run:
  "owner_inv s \<Longrightarrow> fresh_uuids evs s \<Longrightarrow> owner_inv (run evs s)"
  by (induction evs arbitrary: s) (simp_all add: owner_inv_fire)

subsection \<open>Terminal records are not written again\<close>

lemma terminal_kept_resume:
  assumes k: "continuation k" and inv: "owner_inv s"
    and st: "st = Await_create \<or> st = Await_extract \<or> k = after_cleanup cleanup"
    and j: "jobs s x = Some j" and t: "terminal (status j)"
  shows "jobs (resume i st k s) x = Some j"
proof (cases "i < length (tasks s) \<and> task_stage (tasks s ! i) = st")
  case False
  then have "resume i st k s = s" by (rule resume_disabled)
  with j show ?thesis by simp
next
  case True
  let ?t = "tasks s ! i"
  let ?js' = "snd (k ?t (jobs s))"
  have eq: "jobs (resume i st k s) = ?js'"
    using True by (simp add: resume_enabled)
  from k have upd: "?js' = jobs s \<or> (\<exists>j. ?js' = (jobs s)(task_jobId ?t \<mapsto> j))"
    unfolding continuation_def by blast
  from st show ?thesis
  proof (elim disjE)
    assume "k = after_cleanup cleanup"
    then have "?js' = jobs s" by (simp add: after_cleanup_cleanup)
    with j show ?thesis unfolding eq by simp
  next
    assume "st = Await_create"
    with True have "writing ?t" "?t \<in> set (tasks s)" by (simp_all add: writing_def)
    with inv have "is_processing (jobs s) (task_jobId ?t)" by (simp add: owner_inv_def)
    with j t have "task_jobId ?t \<noteq> x" by (auto simp: is_processing_def terminal_def)
    with upd j show ?thesis unfolding eq by auto
  next
    assume "st = Await_extract"
    with True have "writing ?t" "?t \<in> set (tasks s)" by (simp_all add: writing_def)
    with inv have "is_processing (jobs s) (task_jobId ?t)" by (simp add: owner_inv_def)
    with j t have "task_jobId ?t \<noteq> x" by (auto simp: is_processing_def terminal_def)
    with upd j show ?thesis unfolding eq by auto
  qed
qed

lemma terminal_kept_fire:
  assumes inv: "owner_inv s" and fr: "fresh_uuid e s"
    and j: "jobs s x = Some j" and t: "terminal (status j)"
  shows "jobs (fire e s) x = Some j"
proof (cases e)
  case (Post parsed uuid)
  with fr have "jobs s uuid = None" by (simp split: option.splits)
  with j have "uuid \<noteq> x" by auto
  with handle_extract_cases [of parsed uuid s] j show ?thesis
    unfolding Post by (auto simp: create_job_def)
next
  case (Get_job k)
  with j show ?thesis by simp
next
  case (Create_settled i outcome)
  show ?thesis unfolding Create_settled fire.simps
    by (rule terminal_kept_resume [OF continuation_after_create inv _ j t]) simp
next
  case (Extract_settled i outcome)
  show ?thesis unfolding Extract_settled fire.simps
    by (rule terminal_kept_resume [OF continuation_after_extract inv _ j t]) simp
next
  case (Cleanup_settled i)
  show ?thesis unfolding Cleanup_settled fire.simps
    by (rule terminal_kept_resume [OF continuation_after_cleanup inv _ j t]) simp
qed

lemma terminal_kept_run:
  "owner_inv s \<Longrightarrow> fresh_uuids evs s \<Longrightarrow> jobs s x = Some j \<Longrightarrow> terminal (status j) \<Longrightarrow>
   jobs (run evs s) x = Some j"
  by (induction evs arbitrary: s) (simp_all add: owner_inv_fire terminal_kept_fire)

subsection \<open>Only submissions add identifiers\<close>

lemma known_resume:
  assumes k: "continuation k" and known: "\<forall>t \<in> set (tasks s). jobs s (task_jobId t) \<noteq> None"
  shows "(\<forall>t \<in> set (tasks (resume i st k s)). jobs (resume i st k s) (task_jobId t) \<noteq> None) \<and>
         (\<forall>x. jobs s x = None \<longrightarrow> jobs (resume i st k s) x = None)"
proof (cases "i < length (tasks s) \<and> task_stage (tasks s ! i) = st")
  case False
  then have "resume i st k s = s" by (rule resume_disabled)
  with known show ?thesis by simp
next
  case True
  let ?t = "tasks s ! i"
  let ?t' = "fst (k ?t (jobs s))"
  let ?js' = "snd (k ?t (jobs s))"
  have eq: "resume i st k s = s\<lparr>jobs := ?js', tasks := (tasks s)[i := ?t']\<rparr>"
    using True by (rule resume_enabled)
  from True have ti: "?t \<in> set (tasks s)" by simp
  with known have own: "jobs s (task_jobId ?t) \<noteq> None" by blast
  from k have id: "task_jobId ?t' = task_jobId ?t"
    and upd: "?js' = jobs s \<or> (\<exists>j. ?js' = (jobs s)(task_jobId ?t \<mapsto> j))"
    unfolding continuation_def by blast+
  have keep: "\<And>x. jobs s x \<noteq> None \<Longrightarrow> ?js' x \<noteq> None"
    using upd by auto
  have none: "\<forall>x. jobs s x = None \<longrightarrow> ?js' x = None"
    using upd own by auto
  have "\<forall>u \<in> set ((tasks s)[i := ?t']). ?js' (task_jobId u) \<noteq> None"
  proof
    fix u assume "u \<in> set ((tasks s)[i := ?t'])"
    then have "u = ?t' \<or> u \<in> set (tasks s)"
      using set_update_subset_insert [of "tasks s" i ?t'] by auto
    then have "jobs s (task_jobId u) \<noteq> None"
      using known ti id by auto
    then show "?js' (task_jobId u) \<noteq> None" by (rule keep)
  qed
  with none show ?thesis unfolding eq by simp
qed

lemma known_fire:
  assumes known: "\<forall>t \<in> set (tasks s). jobs s (task_jobId t) \<noteq> None"
  shows "(\<forall>t \<in> set (tasks (fire e s)). jobs (fire e s) (task_jobId t) \<noteq> None) \<and>
         (\<forall>x. jobs s x = None \<and> x \<notin> set (posted [e]) \<longrightarrow> jobs (fire e s) x = None)"
proof (cases e)
  case (Post parsed uuid)
  from handle_extract_cases [of parsed uuid s] known show ?thesis
    unfolding Post by (auto simp: create_job_def)
next
  case (Get_job k)
  with known show ?thesis by simp
next
  case (Create_settled i outcome)
  from known_resume [OF continuation_after_create known, of i Await_create outcome]
  show ?thesis unfolding Create_settled by simp
next
  case (Extract_settled i outcome)
  from known_resume [OF continuation_after_extract known, of i Await_extract outcome]
  show ?thesis unfolding Extract_settled by simp
next
  case (Cleanup_settled i)
  from known_resume [OF continuation_after_cleanup known, of i Await_cleanup]
  show ?thesis unfolding Cleanup_settled by simp
qed

lemma unposted_run:
  assumes "\<forall>t \<in> set (tasks s). jobs s (task_jobId t) \<noteq> None"
    and "jobs s x = None" and "x \<notin> set (posted evs)"
  shows "jobs (run evs s) x = None"
  using assms
proof (induction evs arbitrary: s)
  case Nil
  then show ?case by simp
next
  case (Cons e evs)
  from Cons.prems(3) have e: "x \<notin> set (posted [e])" and es: "x \<notin> set (posted evs)"
    by (simp_all add: posted_Cons [of e evs])
  from known_fire [OF Cons.prems(1), of e] Cons.prems(2) e
  have "\<forall>t \<in> set (tasks (fire e s)). jobs (fire e s) (task_jobId t) \<noteq> None"
    and "jobs (fire e s) x = None"
    by blast+
  then have "jobs (run evs (fire e s)) x = None"
    using es by (rule Cons.IH)
  then show ?case by simp
qed

subsection \<open>The listing loop\<close>

lemma push_docs_acc:
  "push_docs entries docs =
     docs @ map (\<lambda>entry. \<lparr>name = entry_name entry, path = ''./generated-docs/'' @ entry_name entry\<rparr>)
              (filter (\<lambda>entry. isFile entry \<and> endsWith (entry_name entry) ''.md'') entries)"
  by (induction entries arbitrary: docs) simp_all

lemma endsWith_iff: "endsWith s t \<longleftrightarrow> (\<exists>p. s = p @ t)"
proof
  assume "endsWith s t"
  then have "s = take (length s - length t) s @ t"
    by (metis append_take_drop_id endsWith_def)
  then show "\<exists>p. s = p @ t" ..
next
  assume "\<exists>p. s = p @ t"
  then show "endsWith s t" by (auto simp: endsWith_def)
qed

section \<open>Submission\<close>

text \<open>
  C1 as stated fails: a submission in which both fields are present, \<^verbatim>\<open>docsUrl\<close> as
  the empty string, is turned down with 400 and creates no job, so the status query that
  follows answers 404.
\<close>

theorem submit_empty_docsUrl_counterexample:
  "property (JObj [(''docsUrl'', JStr []), (''extractionType'', JStr ''overview'')]) ''docsUrl'' =
     Some (JStr []) \<and>
   property (JObj [(''docsUrl'', JStr []), (''extractionType'', JStr ''overview'')])
     ''extractionType'' = Some (JStr ''overview'') \<and>
   fst (handle_extract
          (Resolved (JObj [(''docsUrl'', JStr []), (''extractionType'', JStr ''overview'')]))
          ''j1'' (init :: string server)) =
     \<lparr>http_status = 400,
      body = Error_body ''Missing required fields: docsUrl, extractionType''\<rparr> \<and>
   handle_job ''j1''
     (snd (handle_extract
             (Resolved (JObj [(''docsUrl'', JStr []), (''extractionType'', JStr ''overview'')]))
             ''j1'' (init :: string server))) =
     \<lparr>http_status = 404, body = Error_body ''Job not found''\<rparr>"
  by (simp add: server_eval bad_request_def)

text \<open>
  C1, as the code has it. A valid submission is one whose parsed body has a truthy
  \<^verbatim>\<open>docsUrl\<close> and a truthy \<^verbatim>\<open>extractionType\<close> (present, and not the empty string,
  \<^verbatim>\<open>0\<close>, \<^verbatim>\<open>false\<close> or \<^verbatim>\<open>null\<close>), which is what the handler's check lets through.
  The handler then answers 200 with the identifier \<^verbatim>\<open>crypto.randomUUID()\<close> returned
  and status processing, has stored the record \<^verbatim>\<open>{ status: "processing" }\<close> under it,
  and has left the background task suspended at its first \<^verbatim>\<open>await\<close>: no outcome of the
  extraction enters the answer. A status query in the state the handler leaves answers
  200 with that record: processing, no result, no error.
\<close>

theorem submit_then_status_processing:
  assumes "truthy (property b ''docsUrl'')" and "truthy (property b ''extractionType'')"
  shows "fst (handle_extract (Resolved b) uuid s) =
           \<lparr>http_status = 200, body = Extract_body uuid Processing\<rparr> \<and>
         jobs (snd (handle_extract (Resolved b) uuid s)) uuid =
           Some \<lparr>status = Processing, result = None, error = None\<rparr> \<and>
         tasks (snd (handle_extract (Resolved b) uuid s)) =
           tasks s @ [\<lparr>task_jobId = uuid, task_docsUrl = property b ''docsUrl'',
                        task_extractionType = property b ''extractionType'',
                        task_stage = Await_create\<rparr>] \<and>
         handle_job uuid (snd (handle_extract (Resolved b) uuid s)) =
           \<lparr>http_status = 200,
            body = Job_body \<lparr>status = Processing, result = None, error = None\<rparr>\<rparr>"
  by (simp add: handle_extract_accept [OF assms] create_job_def handle_job_def)

theorem submit_then_status_processing_witness:
  "truthy (property (JObj [(''docsUrl'', JStr ''https://example.com''),
                            (''extractionType'', JStr ''overview'')]) ''docsUrl'') \<and>
   truthy (property (JObj [(''docsUrl'', JStr ''https://example.com''),
                            (''extractionType'', JStr ''overview'')]) ''extractionType'') \<and>
   handle_job ''j1''
     (snd (handle_extract
        (Resolved (JObj [(''docsUrl'', JStr ''https://example.com''),
                         (''extractionType'', JStr ''overview'')])) ''j1'' (init :: string server))) =
     \<lparr>http_status = 200,
      body = Job_body \<lparr>status = Processing, result = None, error = None\<rparr>\<rparr>"
  using submit_then_status_processing
    [of "JObj [(''docsUrl'', JStr ''https://example.com''), (''extractionType'', JStr ''overview'')]"
        "''j1''" "init :: string server"]
  by simp

text \<open>
  C6 as stated fails. A body that is \<^verbatim>\<open>null\<close> has neither field, and a body that does
  not parse has none either; both are answered 500 with the message of the exception,
  not with the missing-fields answer. And a payload that has \<^verbatim>\<open>docsUrl\<close> and lacks
  only \<^verbatim>\<open>extractionType\<close> is answered with a text that names \<^verbatim>\<open>docsUrl\<close> as well.
\<close>

theorem missing_field_answers_counterexample:
  "property JNull ''docsUrl'' = None \<and> property JNull ''extractionType'' = None \<and>
   handle_extract (Resolved JNull) ''j1'' (init :: string server) =
     (\<lparr>http_status = 500,
       body = Error_body ''Cannot destructure property 'docsUrl' of 'body' as it is null.''\<rparr>,
      init) \<and>
   handle_extract (Rejected (Error_instance ''Unexpected end of JSON input'')) ''j1''
       (init :: string server) =
     (\<lparr>http_status = 500, body = Error_body ''Unexpected end of JSON input''\<rparr>, init) \<and>
   property (JObj [(''docsUrl'', JStr ''https://example.com'')]) ''docsUrl'' =
     Some (JStr ''https://example.com'') \<and>
   property (JObj [(''docsUrl'', JStr ''https://example.com'')]) ''extractionType'' = None \<and>
   handle_extract (Resolved (JObj [(''docsUrl'', JStr ''https://example.com'')])) ''j1''
       (init :: string server) =
     (\<lparr>http_status = 400,
       body = Error_body ''Missing required fields: docsUrl, extractionType''\<rparr>, init)"
  by (simp add: handle_extract_def destructure_def internal_error_def bad_request_def)

text \<open>
  C6, as the code has it. A submission whose body parses to a JSON value other than
  \<^verbatim>\<open>null\<close> that lacks \<^verbatim>\<open>docsUrl\<close> or \<^verbatim>\<open>extractionType\<close> is answered at once with
  400 and the fixed message \<^verbatim>\<open>Missing required fields: docsUrl, extractionType\<close>,
  which names both required fields whichever is missing. The server state is returned as
  it was: every status query answers as before, and after such a submission to a server
  that has just started every identifier is answered 404.
\<close>

theorem missing_field_rejected:
  assumes "b \<noteq> JNull"
    and "property b ''docsUrl'' = None \<or> property b ''extractionType'' = None"
  shows "handle_extract (Resolved b) uuid (s :: 'r server) =
           (\<lparr>http_status = 400,
             body = Error_body ''Missing required fields: docsUrl, extractionType''\<rparr>, s) \<and>
         handle_job k (snd (handle_extract (Resolved b) uuid s)) = handle_job k s \<and>
         handle_job k (snd (handle_extract (Resolved b) uuid (init :: 'r server))) =
           \<lparr>http_status = 404, body = Error_body ''Job not found''\<rparr>"
proof -
  from assms(2) have "\<not> truthy (property b ''docsUrl'') \<or>
      \<not> truthy (property b ''extractionType'')"
    by auto
  with assms(1) have "\<And>s :: 'r server. handle_extract (Resolved b) uuid s = (bad_request, s)"
    by (rule handle_extract_reject)
  then show ?thesis
    by (simp add: bad_request_def handle_job_missing init_def)
qed

theorem missing_field_rejected_witness:
  "JObj [] \<noteq> JNull \<and>
   (property (JObj []) ''docsUrl'' = None \<or> property (JObj []) ''extractionType'' = None) \<and>
   handle_extract (Resolved (JObj [])) ''j1'' (init :: string server) =
     (\<lparr>http_status = 400,
       body = Error_body ''Missing required fields: docsUrl, extractionType''\<rparr>, init) \<and>
   handle_job ''j1'' (snd (handle_extract (Resolved (JObj [])) ''j1'' (init :: string server))) =
     \<lparr>http_status = 404, body = Error_body ''Job not found''\<rparr>"
  using missing_field_rejected [of "JObj []" "''j1''" "init :: string server" "''j1''"]
  by auto

text \<open>
  C9. A submission in which \<^verbatim>\<open>docsUrl\<close> or \<^verbatim>\<open>extractionType\<close> is present with a
  falsy value (the empty string; also \<^verbatim>\<open>0\<close>, \<^verbatim>\<open>false\<close> and \<^verbatim>\<open>null\<close>) is answered
  400 with the same message as a missing field, and the server state is returned as it
  was: no job is created.
\<close>

theorem falsy_field_rejected:
  assumes "map_of props ''docsUrl'' = Some v \<or> map_of props ''extractionType'' = Some v"
    and "v = JStr [] \<or> v = JNum 0 \<or> v = JBool False \<or> v = JNull"
  shows "handle_extract (Resolved (JObj props)) uuid s =
           (\<lparr>http_status = 400,
             body = Error_body ''Missing required fields: docsUrl, extractionType''\<rparr>, s)"
proof -
  have "JObj props \<noteq> JNull" by simp
  moreover from assms(2) have "\<not> truthy (Some v)" by auto
  with assms(1) have "\<not> truthy (property (JObj props) ''docsUrl'') \<or>
      \<not> truthy (property (JObj props) ''extractionType'')"
    by auto
  ultimately have "handle_extract (Resolved (JObj props)) uuid s = (bad_request, s)"
    by (rule handle_extract_reject)
  then show ?thesis by (simp add: bad_request_def)
qed

theorem falsy_field_rejected_witness:
  "(map_of [(''docsUrl'', JStr []), (''extractionType'', JStr ''overview'')] ''docsUrl'' = Some (JStr [])
    \<or> map_of [(''docsUrl'', JStr []), (''extractionType'', JStr ''overview'')] ''extractionType'' =
        Some (JStr [])) \<and>
   handle_extract
     (Resolved (JObj [(''docsUrl'', JStr []), (''extractionType'', JStr ''overview'')]))
     ''j1'' (init :: string server) =
     (\<lparr>http_status = 400,
       body = Error_body ''Missing required fields: docsUrl, extractionType''\<rparr>, init)"
  using falsy_field_rejected
    [of "[(''docsUrl'', JStr []), (''extractionType'', JStr ''overview'')]" "JStr []"
        "''j1''" "init :: string server"]
  by simp

section \<open>Status queries\<close>

text \<open>
  C7. A status query for an identifier with no record in \<^verbatim>\<open>jobs\<close> is answered 404
  \<^verbatim>\<open>Job not found\<close>; and after any events since the server's start, an identifier
  that \<^verbatim>\<open>crypto.randomUUID()\<close> has not handed to a submission has no record.
\<close>

theorem unknown_job_not_found:
  "(jobs s k = None \<longrightarrow>
      handle_job k s = \<lparr>http_status = 404, body = Error_body ''Job not found''\<rparr>) \<and>
   (k \<notin> set (posted evs) \<longrightarrow>
      handle_job k (run evs init) = \<lparr>http_status = 404, body = Error_body ''Job not found''\<rparr>)"
proof (intro conjI impI)
  assume "jobs s k = None"
  then show "handle_job k s = \<lparr>http_status = 404, body = Error_body ''Job not found''\<rparr>"
    by (rule handle_job_missing)
next
  assume "k \<notin> set (posted evs)"
  have "jobs (run evs (init :: 'b server)) k = None"
    by (rule unposted_run) (simp_all add: init_def \<open>k \<notin> set (posted evs)\<close>)
  then show "handle_job k (run evs init) = \<lparr>http_status = 404, body = Error_body ''Job not found''\<rparr>"
    by (rule handle_job_missing)
qed

theorem unknown_job_not_found_witness:
  "jobs (init :: string server) ''j2'' = None \<and>
   handle_job ''j2'' (init :: string server) =
     \<lparr>http_status = 404, body = Error_body ''Job not found''\<rparr> \<and>
   ''j2'' \<notin> set (posted
      [Post (Resolved (JObj [(''docsUrl'', JStr ''https://example.com''),
                             (''extractionType'', JStr ''overview'')])) ''j1'' :: string event]) \<and>
   handle_job ''j2''
     (run [Post (Resolved (JObj [(''docsUrl'', JStr ''https://example.com''),
                                 (''extractionType'', JStr ''overview'')])) ''j1'']
          (init :: string server)) =
     \<lparr>http_status = 404, body = Error_body ''Job not found''\<rparr>"
  using unknown_job_not_found
    [of "init :: string server" "''j2''"
        "[Post (Resolved (JObj [(''docsUrl'', JStr ''https://example.com''),
                                (''extractionType'', JStr ''overview'')])) ''j1'' :: string event]"]
  by (simp add: init_def)

text \<open>
  C2 as stated fails when \<^verbatim>\<open>crypto.randomUUID()\<close> hands a submission the identifier
  of an earlier job, which the handler does not check: the completed job is seen
  processing again, and failed once the second extraction is rejected.
\<close>

theorem terminal_status_reset_counterexample:
  "handle_job ''j1''
     (run [Post (Resolved (JObj [(''docsUrl'', JStr ''https://example.com''),
                                 (''extractionType'', JStr ''overview'')])) ''j1'',
           Create_settled 0 (Resolved ()),
           Extract_settled 0 (Resolved ''# Title'')]
        (init :: string server)) =
     \<lparr>http_status = 200,
      body = Job_body \<lparr>status = Completed, result = Some ''# Title'', error = None\<rparr>\<rparr> \<and>
   handle_job ''j1''
     (run [Post (Resolved (JObj [(''docsUrl'', JStr ''https://example.com''),
                                 (''extractionType'', JStr ''overview'')])) ''j1'',
           Create_settled 0 (Resolved ()),
           Extract_settled 0 (Resolved ''# Title''),
           Post (Resolved (JObj [(''docsUrl'', JStr ''https://example.org''),
                                 (''extractionType'', JStr ''api'')])) ''j1'']
        (init :: string server)) =
     \<lparr>http_status = 200,
      body = Job_body \<lparr>status = Processing, result = None, error = None\<rparr>\<rparr> \<and>
   handle_job ''j1''
     (run [Post (Resolved (JObj [(''docsUrl'', JStr ''https://example.com''),
                                 (''extractionType'', JStr ''overview'')])) ''j1'',
           Create_settled 0 (Resolved ()),
           Extract_settled 0 (Resolved ''# Title''),
           Post (Resolved (JObj [(''docsUrl'', JStr ''https://example.org''),
                                 (''extractionType'', JStr ''api'')])) ''j1'',
           Create_settled 1 (Rejected (Error_instance ''no key''))]
        (init :: string server)) =
     \<lparr>http_status = 200,
      body = Job_body \<lparr>status = Failed, result = None, error = Some ''no key''\<rparr>\<rparr>"
  by (simp add: server_eval)

text \<open>
  C2, as the code has it. Let \<open>evs\<close> and \<open>evs'\<close> be any events of the server
  (submissions, status queries, settlements of the promises the tasks await, in any
  interleaving) in which \<^verbatim>\<open>crypto.randomUUID()\<close> never returns an identifier that
  already has a record in the map. If a status query after \<open>evs\<close> reports job \<open>k\<close> as
  completed or failed with record \<open>j\<close>, a status query after any continuation \<open>evs'\<close>
  reports the same record \<open>j\<close>: same terminal state, same payload. So the job is never
  seen processing again, and never moves between completed and failed.
\<close>

theorem terminal_status_stable:
  assumes "fresh_uuids (evs @ evs') init"
    and "handle_job k (run evs init) = \<lparr>http_status = 200, body = Job_body j\<rparr>"
    and "status j = Completed \<or> status j = Failed"
  shows "handle_job k (run (evs @ evs') init) = \<lparr>http_status = 200, body = Job_body j\<rparr>"
proof -
  from assms(1) have f1: "fresh_uuids evs (init :: 'a server)"
    and f2: "fresh_uuids evs' (run evs (init :: 'a server))"
    by (simp_all add: fresh_uuids_append)
  from owner_inv_init f1 have inv: "owner_inv (run evs (init :: 'a server))"
    by (rule owner_inv_run)
  from assms(2) have "jobs (run evs init) k = Some j"
    by (simp add: handle_job_found)
  moreover from assms(3) have "terminal (status j)" by (simp add: terminal_def)
  ultimately have "jobs (run evs' (run evs init)) k = Some j"
    using inv f2 by (simp add: terminal_kept_run)
  then show ?thesis
    by (simp add: run_append handle_job_found)
qed

theorem terminal_status_stable_witness:
  "fresh_uuids
     ([Post (Resolved (JObj [(''docsUrl'', JStr ''https://example.com''),
                             (''extractionType'', JStr ''overview'')])) ''j1'',
       Create_settled 0 (Resolved ()),
       Extract_settled 0 (Resolved ''# Title'')] @
      [Get_job ''j1'',
       Cleanup_settled 0,
       Post (Resolved (JObj [(''docsUrl'', JStr ''https://example.org''),
                             (''extractionType'', JStr ''api'')])) ''j2'',
       Extract_settled 0 (Rejected (Non_error ''late'')),
       Create_settled 1 (Rejected (Error_instance ''no key''))])
     (init :: string server) \<and>
   handle_job ''j1''
     (run [Post (Resolved (JObj [(''docsUrl'', JStr ''https://example.com''),
                                 (''extractionType'', JStr ''overview'')])) ''j1'',
           Create_settled 0 (Resolved ()),
           Extract_settled 0 (Resolved ''# Title'')]
        (init :: string server)) =
     \<lparr>http_status = 200,
      body = Job_body \<lparr>status = Completed, result = Some ''# Title'', error = None\<rparr>\<rparr> \<and>
   handle_job ''j1''
     (run ([Post (Resolved (JObj [(''docsUrl'', JStr ''https://example.com''),
                                  (''extractionType'', JStr ''overview'')])) ''j1'',
            Create_settled 0 (Resolved ()),
            Extract_settled 0 (Resolved ''# Title'')] @
           [Get_job ''j1'',
            Cleanup_settled 0,
            Post (Resolved (JObj [(''docsUrl'', JStr ''https://example.org''),
                                  (''extractionType'', JStr ''api'')])) ''j2'',
            Extract_settled 0 (Rejected (Non_error ''late'')),
            Create_settled 1 (Rejected (Error_instance ''no key''))])
        (init :: string server)) =
     \<lparr>http_status = 200,
      body = Job_body \<lparr>status = Completed, result = Some ''# Title'', error = None\<rparr>\<rparr>"
proof -
  let ?evs = "[Post (Resolved (JObj [(''docsUrl'', JStr ''https://example.com''),
                                     (''extractionType'', JStr ''overview'')])) ''j1'',
               Create_settled 0 (Resolved ()),
               Extract_settled 0 (Resolved ''# Title'')] :: string event list"
  let ?evs' = "[Get_job ''j1'',
                Cleanup_settled 0,
                Post (Resolved (JObj [(''docsUrl'', JStr ''https://example.org''),
                                      (''extractionType'', JStr ''api'')])) ''j2'',
                Extract_settled 0 (Rejected (Non_error ''late'')),
                Create_settled 1 (Rejected (Error_instance ''no key''))] :: string event list"
  have fresh: "fresh_uuids (?evs @ ?evs') (init :: string server)"
    by (simp add: server_eval)
  have poll: "handle_job ''j1'' (run ?evs (init :: string server)) =
      \<lparr>http_status = 200,
       body = Job_body \<lparr>status = Completed, result = Some ''# Title'', error = None\<rparr>\<rparr>"
    by (simp add: server_eval)
  have "status \<lparr>status = Completed, result = Some ''# Title'', error = None\<rparr> = Completed \<or>
        status \<lparr>status = Completed, result = Some ''# Title'', error = None\<rparr> = Failed"
    by simp
  with fresh poll show ?thesis
    using terminal_status_stable [of ?evs ?evs' "''j1''"
        "\<lparr>status = Completed, result = Some ''# Title'', error = None\<rparr>"]
    by blast
qed

section \<open>Job records\<close>

text \<open>
  C4. In every state the server can reach from its start (an empty map) by any events,
  each stored job has no result and no error while processing, a result and no error
  when completed, and an error and no result when failed.
\<close>

theorem job_record_shape:
  assumes "jobs (run evs init) k = Some j"
  shows "(status j = Processing \<longrightarrow> result j = None \<and> error j = None) \<and>
         (status j = Completed \<longrightarrow> result j \<noteq> None \<and> error j = None) \<and>
         (status j = Failed \<longrightarrow> result j = None \<and> error j \<noteq> None)"
proof -
  have "\<forall>x j. jobs (init :: 'a server) x = Some j \<longrightarrow> job_wf j"
    by (simp add: init_def)
  then have "\<forall>x j. jobs (run evs (init :: 'a server)) x = Some j \<longrightarrow> job_wf j"
    by (rule job_wf_run)
  with assms have "job_wf j" by blast
  then show ?thesis by (cases "status j") (simp_all add: job_wf_def)
qed

theorem job_record_shape_witness:
  "jobs (run [Post (Resolved (JObj [(''docsUrl'', JStr ''https://example.com''),
                                    (''extractionType'', JStr ''overview'')])) ''j1'',
              Create_settled 0 (Resolved ()),
              Extract_settled 0 (Resolved ''# Title'')]
           (init :: string server)) ''j1'' =
     Some \<lparr>status = Completed, result = Some ''# Title'', error = None\<rparr> \<and>
   result \<lparr>status = Completed, result = Some ''# Title'', error = (None :: string option)\<rparr> \<noteq> None \<and>
   error \<lparr>status = Completed, result = Some ''# Title'', error = (None :: string option)\<rparr> = None"
proof -
  have j: "jobs (run [Post (Resolved (JObj [(''docsUrl'', JStr ''https://example.com''),
                                    (''extractionType'', JStr ''overview'')])) ''j1'',
              Create_settled 0 (Resolved ()),
              Extract_settled 0 (Resolved ''# Title'')]
           (init :: string server)) ''j1'' =
     Some \<lparr>status = Completed, result = Some ''# Title'', error = None\<rparr>"
    by (simp add: server_eval)
  from job_record_shape [OF j] j show ?thesis by simp
qed

text \<open>
  What the \<^verbatim>\<open>catch\<close> does with a rejection whose value is an \<^verbatim>\<open>Error\<close> or converts
  to a string: it stores the failed record with the message under the task's job, and
  the task is finished. The same \<^verbatim>\<open>catch\<close> guards all three \<^verbatim>\<open>await\<close>s.
\<close>

lemma convertible_rejection_marks_failed:
  assumes "i < length (tasks s)" and "error_message e = Some m"
  shows "(task_stage (tasks s ! i) = Await_create \<longrightarrow>
            fire (Create_settled i (Rejected e)) s =
              s\<lparr>jobs := markFailed (task_jobId (tasks s ! i)) m (jobs s),
                tasks := (tasks s)[i := (tasks s ! i)\<lparr>task_stage := Finished\<rparr>]\<rparr>) \<and>
         (task_stage (tasks s ! i) = Await_extract \<longrightarrow>
            fire (Extract_settled i (Rejected e)) s =
              s\<lparr>jobs := markFailed (task_jobId (tasks s ! i)) m (jobs s),
                tasks := (tasks s)[i := (tasks s ! i)\<lparr>task_stage := Finished\<rparr>]\<rparr>) \<and>
         after_cleanup (Rejected e) (tasks s ! i) (jobs s) =
           ((tasks s ! i)\<lparr>task_stage := Finished\<rparr>,
            markFailed (task_jobId (tasks s ! i)) m (jobs s)) \<and>
         markFailed (task_jobId (tasks s ! i)) m (jobs s) (task_jobId (tasks s ! i)) =
           Some \<lparr>status = Failed, result = None, error = Some m\<rparr>"
  using assms
  by (simp add: resume_enabled after_create_def after_extract_def after_cleanup_def
                caught_def task_catch_def markFailed_def)

text \<open>
  C5 says that every failure of the external operation ends in the job marked failed
  with a stringified message, and that no failure leaves the background task as an
  unhandled rejection. The code misses one case: when \<^verbatim>\<open>agent.extract\<close> is rejected
  with a value on which \<^verbatim>\<open>String\<close> throws, the \<^verbatim>\<open>catch\<close> block throws while it
  builds the record, before \<^verbatim>\<open>jobs.set\<close>. The job stays processing, a status query
  keeps reporting processing, and the task has crashed: its rejection is unhandled.
\<close>

theorem unconvertible_rejection_unhandled:
  "task_stage (tasks
      (run [Post (Resolved (JObj [(''docsUrl'', JStr ''https://example.com''),
                                  (''extractionType'', JStr ''overview'')])) ''j1'',
            Create_settled 0 (Resolved ())]
         (init :: string server)) ! 0) = Await_extract \<and>
   jobs (run [Post (Resolved (JObj [(''docsUrl'', JStr ''https://example.com''),
                                    (''extractionType'', JStr ''overview'')])) ''j1'',
              Create_settled 0 (Resolved ()),
              Extract_settled 0 (Rejected Unconvertible)]
           (init :: string server)) ''j1'' =
     Some \<lparr>status = Processing, result = None, error = None\<rparr> \<and>
   map task_stage (tasks
      (run [Post (Resolved (JObj [(''docsUrl'', JStr ''https://example.com''),
                                  (''extractionType'', JStr ''overview'')])) ''j1'',
            Create_settled 0 (Resolved ()),
            Extract_settled 0 (Rejected Unconvertible)]
         (init :: string server))) = [Crashed] \<and>
   handle_job ''j1''
     (run [Post (Resolved (JObj [(''docsUrl'', JStr ''https://example.com''),
                                 (''extractionType'', JStr ''overview'')])) ''j1'',
           Create_settled 0 (Resolved ()),
           Extract_settled 0 (Rejected Unconvertible)]
        (init :: string server)) =
     \<lparr>http_status = 200,
      body = Job_body \<lparr>status = Processing, result = None, error = None\<rparr>\<rparr>"
  by (simp add: server_eval)

section \<open>The writes against the guarded store\<close>

text \<open>
  C3 as stated fails: on a job that is already failed the specification's
  \<open>markCompleted\<close> answers \<open>InvalidTransitionError\<close>, while the server's write replaces
  the record by a completed one; likewise for \<open>markFailed\<close> on a completed job.
\<close>

theorem mark_unguarded_counterexample:
  "spec_markCompleted ''j1'' ''# Title''
     (markFailed ''j1'' ''timeout'' (create_job ''j1'' (jobs (init :: string server)))) =
     Inl InvalidTransitionError \<and>
   markCompleted ''j1'' ''# Title''
     (markFailed ''j1'' ''timeout'' (create_job ''j1'' (jobs (init :: string server)))) ''j1'' =
     Some \<lparr>status = Completed, result = Some ''# Title'', error = None\<rparr> \<and>
   spec_markFailed ''j1'' ''timeout''
     (markCompleted ''j1'' ''# Title'' (create_job ''j1'' (jobs (init :: string server)))) =
     Inl InvalidTransitionError \<and>
   markFailed ''j1'' ''timeout''
     (markCompleted ''j1'' ''# Title'' (create_job ''j1'' (jobs (init :: string server)))) ''j1'' =
     Some \<lparr>status = Failed, result = None, error = Some ''timeout''\<rparr>"
  by (simp add: spec_markCompleted_def spec_markFailed_def is_processing_def markCompleted_def
                markFailed_def create_job_def)

text \<open>
  C3, as the code has it. \<open>markCompleted\<close> stores a completed record with the result and
  \<open>markFailed\<close> a failed record with the error under the identifier, whatever is
  stored there, and leave every other job alone; there is no transition guard and no
  failure. When the job is processing they are the specification's transitions.
\<close>

theorem mark_writes_unconditionally:
  "markCompleted k r js k = Some \<lparr>status = Completed, result = Some r, error = None\<rparr> \<and>
   markFailed k m js k = Some \<lparr>status = Failed, result = None, error = Some m\<rparr> \<and>
   (x \<noteq> k \<longrightarrow> markCompleted k r js x = js x \<and> markFailed k m js x = js x) \<and>
   (is_processing js k \<longrightarrow>
      spec_markCompleted k r js = Inr (markCompleted k r js) \<and>
      spec_markFailed k m js = Inr (markFailed k m js))"
  by (simp add: spec_markCompleted_def spec_markFailed_def markCompleted_def markFailed_def)

theorem mark_writes_unconditionally_witness:
  "''j2'' \<noteq> ''j1'' \<and>
   is_processing (create_job ''j1'' (jobs (init :: string server))) ''j1'' \<and>
   markCompleted ''j1'' ''# Title'' (create_job ''j1'' (jobs (init :: string server))) ''j2'' = None \<and>
   spec_markCompleted ''j1'' ''# Title'' (create_job ''j1'' (jobs (init :: string server))) =
     Inr (markCompleted ''j1'' ''# Title'' (create_job ''j1'' (jobs (init :: string server)))) \<and>
   spec_markFailed ''j1'' ''timeout'' (create_job ''j1'' (jobs (init :: string server))) =
     Inr (markFailed ''j1'' ''timeout'' (create_job ''j1'' (jobs (init :: string server))))"
proof -
  have p: "is_processing (create_job ''j1'' (jobs (init :: string server))) ''j1''"
    by (simp add: is_processing_def create_job_def)
  have n: "''j2'' \<noteq> ''j1''" by simp
  have e: "create_job ''j1'' (jobs (init :: string server)) ''j2'' = None"
    by (simp add: create_job_def init_def)
  from mark_writes_unconditionally
    [of "''j1''" "''# Title''" "create_job ''j1'' (jobs (init :: string server))" "''timeout''" "''j2''"]
    p n e
  show ?thesis by simp
qed

text \<open>
  C8 as stated fails: on an identifier that has a completed record the specification's
  \<open>create\<close> answers \<open>DuplicateIdError\<close>, while the server's write replaces the record
  by a processing one; a second submission that is given the identifier of a completed
  job makes a status query report processing.
\<close>

theorem create_unguarded_counterexample:
  "spec_create ''j1'' (markCompleted ''j1'' ''# Title'' (jobs (init :: string server))) =
     Inl DuplicateIdError \<and>
   create_job ''j1'' (markCompleted ''j1'' ''# Title'' (jobs (init :: string server))) ''j1'' =
     Some \<lparr>status = Processing, result = None, error = None\<rparr> \<and>
   handle_job ''j1''
     (run [Post (Resolved (JObj [(''docsUrl'', JStr ''https://example.com''),
                                 (''extractionType'', JStr ''overview'')])) ''j1'',
           Create_settled 0 (Resolved ()),
           Extract_settled 0 (Resolved ''# Title''),
           Post (Resolved (JObj [(''docsUrl'', JStr ''https://example.org''),
                                 (''extractionType'', JStr ''api'')])) ''j1'']
        (init :: string server)) =
     \<lparr>http_status = 200,
      body = Job_body \<lparr>status = Processing, result = None, error = None\<rparr>\<rparr>"
  by (simp add: spec_create_def server_eval)

text \<open>
  C8, as the code has it. \<open>create_job\<close> stores a record with status processing, no
  result and no error under the identifier and leaves every other job alone; it makes
  no check for an existing record and does not fail. When the identifier is new it is
  the specification's \<open>create\<close>.
\<close>

theorem create_job_writes_processing:
  "create_job k js k = Some \<lparr>status = Processing, result = None, error = None\<rparr> \<and>
   (x \<noteq> k \<longrightarrow> create_job k js x = js x) \<and>
   (js k = None \<longrightarrow> spec_create k js = Inr (create_job k js))"
  by (simp add: spec_create_def create_job_def)

theorem create_job_writes_processing_witness:
  "''j2'' \<noteq> ''j1'' \<and> jobs (init :: string server) ''j1'' = None \<and>
   create_job ''j1'' (jobs (init :: string server)) ''j1'' =
     Some \<lparr>status = Processing, result = None, error = None\<rparr> \<and>
   create_job ''j1'' (jobs (init :: string server)) ''j2'' = None \<and>
   spec_create ''j1'' (jobs (init :: string server)) =
     Inr (create_job ''j1'' (jobs (init :: string server)))"
proof -
  have n: "''j2'' \<noteq> ''j1''" by simp
  have e: "jobs (init :: string server) ''j1'' = None" "jobs (init :: string server) ''j2'' = None"
    by (simp_all add: init_def)
  from create_job_writes_processing [of "''j1''" "jobs (init :: string server)" "''j2''"] n e
  show ?thesis by simp
qed

section \<open>Listing documents\<close>

text \<open>
  C10. If iterating the directory throws, at the start or after any number of entries,
  \<^verbatim>\<open>GET /api/docs\<close> answers 200 with an empty list. If it does not throw, the list is,
  in directory order, one element for each entry that is a regular file and whose name
  ends in \<^verbatim>\<open>.md\<close>, with its name and its path under \<^verbatim>\<open>./generated-docs/\<close>.
\<close>

theorem list_docs_never_fails:
  "handle_docs (Entries_then_throw entries e) =
     (\<lparr>http_status = 200, body = Docs_body []\<rparr> :: 'r response) \<and>
   handle_docs (Entries entries) =
     (\<lparr>http_status = 200,
       body = Docs_body
         (map (\<lambda>entry. \<lparr>name = entry_name entry, path = ''./generated-docs/'' @ entry_name entry\<rparr>)
            (filter (\<lambda>entry. isFile entry \<and> endsWith (entry_name entry) ''.md'') entries))\<rparr>
      :: 'r response) \<and>
   (endsWith s ''.md'' \<longleftrightarrow> (\<exists>p. s = p @ ''.md''))"
  by (simp add: handle_docs_def push_docs_acc endsWith_iff)

theorem list_docs_never_fails_witness:
  "handle_docs (Entries
     [\<lparr>entry_name = ''a.md'', isFile = True, isDirectory = False, isSymlink = False\<rparr>,
      \<lparr>entry_name = ''b.md'', isFile = False, isDirectory = True, isSymlink = False\<rparr>,
      \<lparr>entry_name = ''c.txt'', isFile = True, isDirectory = False, isSymlink = False\<rparr>]) =
     (\<lparr>http_status = 200,
       body = Docs_body [\<lparr>name = ''a.md'', path = ''./generated-docs/a.md''\<rparr>]\<rparr> :: string response) \<and>
   handle_docs (Entries_then_throw
     [\<lparr>entry_name = ''a.md'', isFile = True, isDirectory = False, isSymlink = False\<rparr>]
     (Error_instance ''No such file or directory'')) =
     (\<lparr>http_status = 200, body = Docs_body []\<rparr> :: string response)"
  using list_docs_never_fails
    [where ?'r = string
       and entries = "[\<lparr>entry_name = ''a.md'', isFile = True, isDirectory = False, isSymlink = False\<rparr>]"
       and e = "Error_instance ''No such file or directory''" and s = "''a.md''"]
    list_docs_never_fails
    [where ?'r = string
       and entries = "[\<lparr>entry_name = ''a.md'', isFile = True, isDirectory = False, isSymlink = False\<rparr>,
      \<lparr>entry_name = ''b.md'', isFile = False, isDirectory = True, isSymlink = False\<rparr>,
      \<lparr>entry_name = ''c.txt'', isFile = True, isDirectory = False, isSymlink = False\<rparr>]"
       and e = "Error_instance ''No such file or directory''" and s = "''a.md''"]
  by (simp add: endsWith_def)

end
